theory Spec2Isabelle
  imports Main "HOL-Library.Word" "HOL-Library.Code_Target_Numeral"
begin

section \<open>Data model of the database handle (db.go)\<close>

text \<open>
  \<open>time.Duration\<close> is a signed 64-bit count of nanoseconds: arithmetic wraps around and
  comparisons read the word as two's complement.
\<close>

type_synonym Duration = "64 word"

definition Second :: Duration where
  "Second = 1000000000"

text \<open>
  A \<open>time.Time\<close> is an instant together with a location; a location of \<open>None\<close> is UTC,
  which is also the location of the zero value of the type.
\<close>

record Time =
  instant :: int
  zone :: "string option"

definition zeroTime :: Time where
  "zeroTime = \<lparr>instant = 0, zone = None\<rparr>"

definition UTC :: "Time \<Rightarrow> Time" where
  "UTC t = t\<lparr>zone := None\<rparr>"

text \<open>Errors are values. \<open>External\<close> stands for an error of a collaborator (os, gzip, http,
  the decoder); the two wrappers are the \<open>fmt.Errorf\<close> calls of the source.\<close>

datatype error =
    ErrUnavailable
  | External string
  | UpdateFailed error
  | FsnotifyFailed string error

text \<open>The run-time panics of Go's channel operations.\<close>

datatype panic = CloseOfClosedChannel | SendOnClosedChannel

text \<open>A channel: its buffered values (oldest first), its capacity, and whether it is closed.\<close>

record 'a chan =
  buf :: "'a list"
  cap :: nat
  chclosed :: bool

definition make_chan :: "nat \<Rightarrow> 'a chan" where
  "make_chan n = \<lparr>buf = [], cap = n, chclosed = False\<rparr>"

text \<open>\<open>close(c)\<close> panics on a channel that is closed already.\<close>

definition close_chan :: "'a chan \<Rightarrow> panic + 'a chan" where
  "close_chan c = (if chclosed c then Inl CloseOfClosedChannel else Inr (c\<lparr>chclosed := True\<rparr>))"

text \<open>
  \<open>select { case c <- v: default: }\<close> on a buffered channel with no receiver waiting: the
  value is buffered when there is room and dropped otherwise; a send on a closed channel
  panics. The boolean tells whether the value was sent.
\<close>

definition try_send :: "'a chan \<Rightarrow> 'a \<Rightarrow> panic + ('a chan \<times> bool)" where
  "try_send c v =
     (if chclosed c then Inl SendOnClosedChannel
      else if length (buf c) < cap c then Inr (c\<lparr>buf := buf c @ [v]\<rparr>, True)
      else Inr (c, False))"

text \<open>
  A decoder instance (\<open>*maxminddb.Reader\<close>) is known by its identity. The field \<open>file\<close> of
  the source is \<open>dbfile\<close> here, and the lock has no field: each operation is one step.
\<close>

type_synonym Reader = nat

type_synonym IP = "8 word list"

record DB =
  dbfile :: string
  reader :: "Reader option"
  notifyQuit :: "unit chan"
  notifyOpen :: "string chan"
  notifyError :: "error chan"
  closed :: bool
  lastUpdated :: Time
  updateInterval :: Duration
  maxRetryInterval :: Duration

text \<open>
  What the code does to the world outside the handle's fields, in the order in which it
  does it: closing a decoder instance, closing one of the three notification channels,
  emitting a value on one, a remote request, a pause.
\<close>

datatype stream = QuitStream | OpenStream | ErrorStream

datatype effect =
    ReaderClosed Reader
  | StreamClosed stream
  | Emitted stream
  | HeadRequest string
  | GetRequest string

text \<open>The struct literals of \<open>Open\<close> and \<open>OpenURL\<close>; fields not named there have their zero value.\<close>

definition newDB :: "string \<Rightarrow> Duration \<Rightarrow> Duration \<Rightarrow> DB" where
  "newDB f ui mri =
     \<lparr>dbfile = f, reader = None,
      notifyQuit = make_chan 0, notifyOpen = make_chan 1, notifyError = make_chan 1,
      closed = False, lastUpdated = zeroTime,
      updateInterval = ui, maxRetryInterval = mri\<rparr>"

section \<open>Operations of the handle\<close>

text \<open>
  Every operation runs under the handle's lock, so it is one atomic step on the record.
  A result \<open>Inl p\<close> is a panic; \<open>Inr\<close> carries the new record and the effects, in order.
\<close>

definition setReader :: "Reader \<Rightarrow> Time \<Rightarrow> DB \<Rightarrow> panic + (DB \<times> effect list)" where
  "setReader r modtime d =
     (if closed d then Inr (d, [ReaderClosed r])
      else
        (let fx = (case reader d of Some old \<Rightarrow> [ReaderClosed old] | None \<Rightarrow> []);
             d1 = d\<lparr>reader := Some r, lastUpdated := UTC modtime\<rparr>
         in case try_send (notifyOpen d1) (dbfile d1) of
              Inl p \<Rightarrow> Inl p
            | Inr (c, sent) \<Rightarrow>
                Inr (d1\<lparr>notifyOpen := c\<rparr>, fx @ (if sent then [Emitted OpenStream] else []))))"

definition sendError :: "error \<Rightarrow> DB \<Rightarrow> panic + (DB \<times> effect list)" where
  "sendError e d =
     (if closed d then Inr (d, [])
      else case try_send (notifyError d) e of
             Inl p \<Rightarrow> Inl p
           | Inr (c, sent) \<Rightarrow>
               Inr (d\<lparr>notifyError := c\<rparr>, if sent then [Emitted ErrorStream] else []))"

definition Date :: "DB \<Rightarrow> Time" where
  "Date d = lastUpdated d"

text \<open>\<open>Lookup\<close> delegates to the decoder's own lookup, a collaborator given as \<open>rl\<close>.\<close>

definition Lookup :: "(Reader \<Rightarrow> IP \<Rightarrow> error + 'rec) \<Rightarrow> DB \<Rightarrow> IP \<Rightarrow> error + 'rec" where
  "Lookup rl d addr = (case reader d of Some r \<Rightarrow> rl r addr | None \<Rightarrow> Inl ErrUnavailable)"

text \<open>The first half of \<open>Close\<close>: the three channel closes, guarded by the flag.\<close>

definition closeStreams :: "DB \<Rightarrow> panic + (DB \<times> effect list)" where
  "closeStreams d =
     (if \<not> closed d then
        (case close_chan (notifyQuit d) of
           Inl p \<Rightarrow> Inl p
         | Inr q \<Rightarrow>
            (case close_chan (notifyOpen d) of
               Inl p \<Rightarrow> Inl p
             | Inr oc \<Rightarrow>
                (case close_chan (notifyError d) of
                   Inl p \<Rightarrow> Inl p
                 | Inr ec \<Rightarrow>
                     Inr (d\<lparr>closed := True, notifyQuit := q, notifyOpen := oc, notifyError := ec\<rparr>,
                          [StreamClosed QuitStream, StreamClosed OpenStream,
                           StreamClosed ErrorStream]))))
      else Inr (d, []))"

definition Close :: "DB \<Rightarrow> panic + (DB \<times> effect list)" where
  "Close d =
     (case closeStreams d of
        Inl p \<Rightarrow> Inl p
      | Inr (d1, fx) \<Rightarrow>
          (case reader d1 of
             Some r \<Rightarrow> Inr (d1\<lparr>reader := None\<rparr>, fx @ [ReaderClosed r])
           | None \<Rightarrow> Inr (d1, fx)))"

text \<open>Sequences of calls on one handle, in the order in which they take the lock.\<close>

datatype op = SetReader Reader Time | SendError error | CloseOp | LookupOp IP | DateOp

fun step :: "op \<Rightarrow> DB \<Rightarrow> panic + (DB \<times> effect list)" where
  "step (SetReader r t) d = setReader r t d"
| "step (SendError e) d = sendError e d"
| "step CloseOp d = Close d"
| "step (LookupOp a) d = Inr (d, [])"
| "step DateOp d = Inr (d, [])"

fun run :: "op list \<Rightarrow> DB \<Rightarrow> panic + (DB \<times> effect list)" where
  "run [] d = Inr (d, [])"
| "run (x # xs) d =
     (case step x d of
        Inl p \<Rightarrow> Inl p
      | Inr (d1, fx) \<Rightarrow>
          (case run xs d1 of Inl p \<Rightarrow> Inl p | Inr (d2, fx2) \<Rightarrow> Inr (d2, fx @ fx2)))"

section \<open>The file system and the collaborators\<close>

text \<open>
  A regular file has its bytes and its modification time; the world is the files by path
  and the directories that exist.
\<close>

record fileinfo =
  content :: "8 word list"
  modTime :: Time

record world =
  files :: "string \<rightharpoonup> fileinfo"
  dirs :: "string set"

text \<open>
  The collaborators, none of them code of this repository: the temporary directory
  (\<open>os.TempDir\<close>), \<open>filepath.Join\<close> and \<open>filepath.Dir\<close>, reading a gzip stream to its end,
  and the decoder's constructor \<open>maxminddb.FromBytes\<close>.
\<close>

record env =
  tempDir :: string
  pathJoin :: "string list \<Rightarrow> string"
  pathDir :: "string \<Rightarrow> string"
  gunzip :: "8 word list \<Rightarrow> error + 8 word list"
  fromBytes :: "8 word list \<Rightarrow> error + Reader"

text \<open>The \<open>%d\<close> of \<open>fmt.Sprintf\<close>: decimal digits, with a minus sign below zero.\<close>

fun decimal :: "nat \<Rightarrow> string" where
  "decimal n =
     (if n < 10 then [char_of (48 + n)]
      else decimal (n div 10) @ [char_of (48 + n mod 10)])"

declare decimal.simps [simp del]

definition formatInt :: "int \<Rightarrow> string" where
  "formatInt n = (if n < 0 then CHR ''-'' # decimal (nat (- n)) else decimal (nat n))"

definition defaultDB :: "env \<Rightarrow> string" where
  "defaultDB ev = pathJoin ev [tempDir ev, ''freegeoip'', ''db.gz'']"

text \<open>\<open>os.Stat\<close> succeeds on a path that exists, file or directory.\<close>

definition pathExists :: "world \<Rightarrow> string \<Rightarrow> bool" where
  "pathExists w p \<longleftrightarrow> files w p \<noteq> None \<or> p \<in> dirs w"

text \<open>
  \<open>os.Rename\<close> of a regular file: it fails when the source is missing, or for a reason the
  model does not see (permissions, another device), given as \<open>fault\<close>; otherwise the file
  moves and replaces what was at the target.
\<close>

definition osRename :: "world \<Rightarrow> string \<Rightarrow> string \<Rightarrow> error option \<Rightarrow> error option \<times> world" where
  "osRename w old new fault =
     (case files w old of
        None \<Rightarrow> (Some (External ''rename: no such file or directory''), w)
      | Some f \<Rightarrow>
          (case fault of
             Some e \<Rightarrow> (Some e, w)
           | None \<Rightarrow> (None, w\<lparr>files := ((files w)(old := None))(new \<mapsto> f)\<rparr>)))"

definition osRemoveAll :: "world \<Rightarrow> string \<Rightarrow> world" where
  "osRemoveAll w p = w\<lparr>files := (files w)(p := None)\<rparr>"

section \<open>Loading a snapshot\<close>

definition newReader :: "env \<Rightarrow> world \<Rightarrow> string \<Rightarrow> error + Reader" where
  "newReader ev w dbf =
     (case files w dbf of
        None \<Rightarrow> Inl (External ''open: no such file or directory'')
      | Some f \<Rightarrow>
          (case gunzip ev (content f) of
             Inl e \<Rightarrow> Inl e
           | Inr b \<Rightarrow> fromBytes ev b))"

text \<open>
  \<open>openFile\<close> returns its error (or \<open>None\<close>) beside the handle. It goes to the path twice,
  with no lock held: \<open>newReader\<close> opens and reads the file in the world \<open>w\<close>, and \<open>os.Stat\<close>
  reads the modification time in the world \<open>w2\<close>, which is \<open>w\<close> after what other tasks and
  programs did to the file system in between (the scheduler renames files at this path).
  When the stat fails the instance that was built is neither installed nor closed.
\<close>

definition openFile ::
  "env \<Rightarrow> world \<Rightarrow> world \<Rightarrow> DB \<Rightarrow> panic + (error option \<times> DB \<times> effect list)" where
  "openFile ev w w2 d =
     (case newReader ev w (dbfile d) of
        Inl e \<Rightarrow> Inr (Some e, d, [])
      | Inr r \<Rightarrow>
          (case files w2 (dbfile d) of
             None \<Rightarrow> Inr (Some (External ''stat: no such file or directory''), d, [])
           | Some st \<Rightarrow>
               (case setReader r (modTime st) d of
                  Inl p \<Rightarrow> Inl p
                | Inr (d1, fx) \<Rightarrow> Inr (None, d1, fx))))"

definition makeDir :: "env \<Rightarrow> world \<Rightarrow> DB \<Rightarrow> error option \<Rightarrow> (error + string) \<times> world" where
  "makeDir ev w d mkdirFault =
     (let dbdir = pathDir ev (dbfile d)
      in if pathExists w dbdir then (Inr dbdir, w)
         else (case mkdirFault of
                 Some e \<Rightarrow> (Inl e, w)
               | None \<Rightarrow> (Inr dbdir, w\<lparr>dirs := insert dbdir (dirs w)\<rparr>)))"

section \<open>The constructors\<close>

text \<open>
  What setting up the watch meets: the errors, if any, of \<open>fsnotify.NewWatcher\<close>, of
  \<open>os.MkdirAll\<close> and of \<open>watcher.Watch\<close>. The two background loops that the constructors
  start are modelled on their own below. A constructor is given the world \<open>w\<close> in which the
  file is read and the world \<open>w2\<close> that is there afterwards, for the stat and the watch.
\<close>

record watch_setup =
  newWatcherFault :: "error option"
  watchMkdirFault :: "error option"
  watchFault :: "error option"

definition watchFile :: "env \<Rightarrow> world \<Rightarrow> DB \<Rightarrow> watch_setup \<Rightarrow> error option \<times> world" where
  "watchFile ev w d ws =
     (case newWatcherFault ws of
        Some e \<Rightarrow> (Some e, w)
      | None \<Rightarrow>
          (case makeDir ev w d (watchMkdirFault ws) of
             (Inl e, w1) \<Rightarrow> (Some e, w1)
           | (Inr dbdir, w1) \<Rightarrow> (watchFault ws, w1)))"

definition Open ::
  "env \<Rightarrow> world \<Rightarrow> world \<Rightarrow> string \<Rightarrow> watch_setup \<Rightarrow> panic + ((error + DB) \<times> world)" where
  "Open ev w w2 dsn ws =
     (let d0 = newDB dsn 0 0
      in case openFile ev w w2 d0 of
           Inl p \<Rightarrow> Inl p
         | Inr (Some e, d1, fx) \<Rightarrow>
             (case Close d1 of Inl p \<Rightarrow> Inl p | Inr (d2, fx2) \<Rightarrow> Inr (Inl e, w2))
         | Inr (None, d1, fx) \<Rightarrow>
             (case watchFile ev w2 d1 ws of
                (Some e, w1) \<Rightarrow>
                  (case Close d1 of
                     Inl p \<Rightarrow> Inl p
                   | Inr (d2, fx2) \<Rightarrow> Inr (Inl (FsnotifyFailed dsn e), w1))
              | (None, w1) \<Rightarrow> Inr (Inr d1, w1)))"

definition OpenURL ::
  "env \<Rightarrow> world \<Rightarrow> world \<Rightarrow> Duration \<Rightarrow> Duration \<Rightarrow> watch_setup \<Rightarrow>
     panic + ((error + DB) \<times> world)" where
  "OpenURL ev w w2 ui mri ws =
     (let d0 = newDB (defaultDB ev) ui mri
      in case openFile ev w w2 d0 of
           Inl p \<Rightarrow> Inl p
         | Inr (err, d1, fx) \<Rightarrow>
             (case watchFile ev w2 d1 ws of
                (Some e, w1) \<Rightarrow>
                  (case Close d1 of
                     Inl p \<Rightarrow> Inl p
                   | Inr (d2, fx2) \<Rightarrow> Inr (Inl (FsnotifyFailed (dbfile d1) e), w1))
              | (None, w1) \<Rightarrow> Inr (Inr d1, w1)))"

text \<open>
  An operation installs when it is the install step on a handle that is not closed;
  \<open>noInstall xs d\<close> says that none of the operations \<open>xs\<close>, run from \<open>d\<close>, does.
\<close>

fun installs :: "op \<Rightarrow> DB \<Rightarrow> bool" where
  "installs (SetReader r t) d = (\<not> closed d)"
| "installs x d = False"

fun noInstall :: "op list \<Rightarrow> DB \<Rightarrow> bool" where
  "noInstall [] d = True"
| "noInstall (x # xs) d =
     (\<not> installs x d \<and>
      (case step x d of Inl p \<Rightarrow> True | Inr (d1, fx) \<Rightarrow> noInstall xs d1))"

text \<open>The instances that the install step closes at once when the handle is closed.\<close>

fun discards :: "op list \<Rightarrow> effect list" where
  "discards [] = []"
| "discards (SetReader r t # xs) = ReaderClosed r # discards xs"
| "discards (x # xs) = discards xs"

text \<open>\<open>t.Before(u)\<close>: instants are compared, locations are not.\<close>

definition before :: "Time \<Rightarrow> Time \<Rightarrow> bool" where
  "before t u \<longleftrightarrow> instant t < instant u"

text \<open>
  The invariant of every handle built by \<open>newDB\<close> and changed only by the operations:
  a closed handle has no active instance, and the three channels are closed exactly when
  the flag is set.
\<close>

definition wf :: "DB \<Rightarrow> bool" where
  "wf d \<longleftrightarrow>
     (closed d \<longrightarrow> reader d = None) \<and>
     chclosed (notifyQuit d) = closed d \<and>
     chclosed (notifyOpen d) = closed d \<and>
     chclosed (notifyError d) = closed d"

section \<open>The staleness check\<close>

text \<open>
  \<open>strconv.Atoi\<close> for a 64-bit \<open>int\<close>, as the Go library documents it: an optional sign and
  decimal digits; on a syntax error the value is 0; on a range error the value is the
  nearest bound; the error is returned beside the value.
\<close>

datatype numError = ErrSyntax | ErrRange

definition isDigit :: "char \<Rightarrow> bool" where
  "isDigit c \<longleftrightarrow> 48 \<le> (of_char c :: nat) \<and> (of_char c :: nat) \<le> 57"

fun parseUint :: "string \<Rightarrow> nat \<Rightarrow> numError + nat" where
  "parseUint [] n = Inr n"
| "parseUint (c # cs) n =
     (if \<not> isDigit c then Inl ErrSyntax
      else if n \<ge> (2 ^ 64 - 1) div 10 + 1 then Inl ErrRange
      else (let n1 = n * 10 + (of_char c - 48)
            in if n1 > 2 ^ 64 - 1 then Inl ErrRange else parseUint cs n1))"

definition Atoi :: "string \<Rightarrow> int \<times> numError option" where
  "Atoi s =
     (case s of
        [] \<Rightarrow> (0, Some ErrSyntax)
      | c # cs \<Rightarrow>
          (let neg = (c = CHR ''-'');
               ds = (if c = CHR ''+'' \<or> c = CHR ''-'' then cs else s)
           in if ds = [] then (0, Some ErrSyntax)
              else (case parseUint ds 0 of
                      Inl ErrSyntax \<Rightarrow> (0, Some ErrSyntax)
                    | Inl ErrRange \<Rightarrow> (if neg then - (2 ^ 63) else 2 ^ 63 - 1, Some ErrRange)
                    | Inr un \<Rightarrow>
                        if \<not> neg \<and> un \<ge> 2 ^ 63 then (2 ^ 63 - 1, Some ErrRange)
                        else if neg \<and> un > 2 ^ 63 then (- (2 ^ 63), Some ErrRange)
                        else (if neg then - int un else int un, None))))"

text \<open>\<open>Header.Get\<close>: the empty string when the header is absent.\<close>

definition headerGet :: "(string \<rightharpoonup> string) \<Rightarrow> string \<Rightarrow> string" where
  "headerGet h k = (case h k of None \<Rightarrow> [] | Some v \<Rightarrow> v)"

text \<open>
  \<open>needUpdate\<close> returns Go's pair \<open>(bool, error)\<close>. The answer to the \<open>HEAD\<close> request is given
  as \<open>hr\<close>: an error, or the header of the response. The error of \<open>Atoi\<close> is assigned in the
  source and never read.
\<close>

definition needUpdate ::
  "world \<Rightarrow> DB \<Rightarrow> string \<Rightarrow> error + (string \<rightharpoonup> string) \<Rightarrow> (bool \<times> error option) \<times> effect list" where
  "needUpdate w d url hr =
     (case files w (dbfile d) of
        None \<Rightarrow> ((True, None), [])
      | Some st \<Rightarrow>
          (case hr of
             Inl e \<Rightarrow> ((False, Some e), [HeadRequest url])
           | Inr hdr \<Rightarrow>
               (let (size, err) = Atoi (headerGet hdr ''Content-Length'')
                in if int (length (content st)) \<noteq> size
                   then ((True, None), [HeadRequest url])
                   else ((False, None), [HeadRequest url]))))"

section \<open>Download and install\<close>

text \<open>
  What one update cycle meets outside the program: the answers to the \<open>HEAD\<close> and \<open>GET\<close>
  requests, the clock, the modification time that the system gives a new file, and the
  failures, if any, of \<open>os.Create\<close>, of \<open>io.Copy\<close> (after so many bytes were written), of the
  backup rename, of \<open>os.MkdirAll\<close> and of the final rename.
\<close>

record update_input =
  headResult :: "error + (string \<rightharpoonup> string)"
  getResult :: "error + 8 word list"
  nowNano :: int
  stamp :: Time
  createFault :: "error option"
  copyFault :: "(nat \<times> error) option"
  bakFault :: "error option"
  mkdirFault :: "error option"
  renameFault :: "error option"

definition download ::
  "env \<Rightarrow> world \<Rightarrow> string \<Rightarrow> update_input \<Rightarrow> (error + string) \<times> world \<times> effect list" where
  "download ev w url inp =
     (case getResult inp of
        Inl e \<Rightarrow> (Inl e, w, [GetRequest url])
      | Inr body \<Rightarrow>
          (let tmpfile = pathJoin ev
                 [tempDir ev, ''_freegeoip.'' @ formatInt (nowNano inp) @ ''.db.gz'']
           in case createFault inp of
                Some e \<Rightarrow> (Inl e, w, [GetRequest url])
              | None \<Rightarrow>
                  (case copyFault inp of
                     Some (n, e) \<Rightarrow>
                       (Inl e,
                        w\<lparr>files := (files w)(tmpfile \<mapsto> \<lparr>content = take n body, modTime = stamp inp\<rparr>)\<rparr>,
                        [GetRequest url])
                   | None \<Rightarrow>
                       (Inr tmpfile,
                        w\<lparr>files := (files w)(tmpfile \<mapsto> \<lparr>content = body, modTime = stamp inp\<rparr>)\<rparr>,
                        [GetRequest url]))))"

definition renameFile ::
  "env \<Rightarrow> world \<Rightarrow> DB \<Rightarrow> string \<Rightarrow> update_input \<Rightarrow> error option \<times> world" where
  "renameFile ev w d name inp =
     (let (bakErr, w1) = osRename w (dbfile d) (dbfile d @ ''.bak'') (bakFault inp)
      in case makeDir ev w1 d (mkdirFault inp) of
           (Inl e, w2) \<Rightarrow> (Some e, w2)
         | (Inr dbdir, w2) \<Rightarrow> osRename w2 name (dbfile d) (renameFault inp))"

definition runUpdate ::
  "env \<Rightarrow> world \<Rightarrow> DB \<Rightarrow> string \<Rightarrow> update_input \<Rightarrow> error option \<times> world \<times> effect list" where
  "runUpdate ev w d url inp =
     (case needUpdate w d url (headResult inp) of
        ((yes, Some e), fx) \<Rightarrow> (Some e, w, fx)
      | ((yes, None), fx) \<Rightarrow>
          if \<not> yes then (None, w, fx)
          else (case download ev w url inp of
                  (Inl e, w1, fx1) \<Rightarrow> (Some e, w1, fx @ fx1)
                | (Inr tmpfile, w1, fx1) \<Rightarrow>
                    (case renameFile ev w1 d tmpfile inp of
                       (Some e, w2) \<Rightarrow> (Some e, osRemoveAll w2 tmpfile, fx @ fx1)
                     | (None, w2) \<Rightarrow> (None, w2, fx @ fx1))))"

section \<open>The update scheduler\<close>

text \<open>The two local variables of \<open>autoUpdate\<close>, both zero when the loop starts.\<close>

record backoff =
  sleep :: Duration
  retrying :: bool

definition backoff0 :: backoff where
  "backoff0 = \<lparr>sleep = 0, retrying = False\<rparr>"

text \<open>The branch on the result of \<open>runUpdate\<close>, without the \<open>sendError\<close> call.\<close>

definition nextSleep :: "DB \<Rightarrow> error option \<Rightarrow> backoff \<Rightarrow> backoff" where
  "nextSleep d err b =
     (case err of
        Some e \<Rightarrow>
          (if \<not> retrying b then \<lparr>sleep = 5 * Second, retrying = True\<rparr>
           else (let s = sleep b * 2
                 in \<lparr>sleep = (if maxRetryInterval d <s s then maxRetryInterval d else s),
                     retrying = True\<rparr>))
      | None \<Rightarrow> \<lparr>sleep = updateInterval d, retrying = False\<rparr>)"

text \<open>
  One cycle of the loop meets the inputs of \<open>runUpdate\<close>, the calls that other goroutines
  make on the handle while the loop waits, and, when the handle is closed while the timer is
  due as well, the choice of the \<open>select\<close>.
\<close>

record cycle =
  update :: update_input
  meanwhile :: "op list"
  quitFirst :: bool

text \<open>
  The loop over the cycles it has run. Beside the world and the handle it returns, for each
  cycle, the result of \<open>runUpdate\<close> and the wait chosen. The loop returns when the quit
  channel is closed at the \<open>select\<close>; a wait that is not positive is over at once, and then
  the \<open>select\<close> chooses.
\<close>

fun autoUpdate ::
  "env \<Rightarrow> string \<Rightarrow> cycle list \<Rightarrow> backoff \<Rightarrow> world \<Rightarrow> DB \<Rightarrow>
     panic + (world \<times> DB \<times> effect list \<times> (error option \<times> Duration) list)" where
  "autoUpdate ev url [] b w d = Inr (w, d, [], [])"
| "autoUpdate ev url (c # cs) b w d =
     (case runUpdate ev w d url (update c) of
        (err, w1, fx1) \<Rightarrow>
          (case (case err of
                   Some e \<Rightarrow> sendError (UpdateFailed e) d
                 | None \<Rightarrow> Inr (d, [])) of
             Inl p \<Rightarrow> Inl p
           | Inr (d1, fx2) \<Rightarrow>
               (let b1 = nextSleep d1 err b
                in case run (meanwhile c) d1 of
                     Inl p \<Rightarrow> Inl p
                   | Inr (d2, fx3) \<Rightarrow>
                       if chclosed (notifyQuit d2) \<and> (0 <s sleep b1 \<or> quitFirst c)
                       then Inr (w1, d2, fx1 @ fx2 @ fx3, [(err, sleep b1)])
                       else (case autoUpdate ev url cs b1 w1 d2 of
                               Inl p \<Rightarrow> Inl p
                             | Inr (w3, d3, fx4, lg) \<Rightarrow>
                                 Inr (w3, d3, fx1 @ fx2 @ fx3 @ fx4, (err, sleep b1) # lg)))))"

text \<open>The waits that a run of results gives, by the branch alone.\<close>

fun waits :: "DB \<Rightarrow> error option list \<Rightarrow> backoff \<Rightarrow> Duration list" where
  "waits d [] b = []"
| "waits d (r # rs) b = sleep (nextSleep d r b) # waits d rs (nextSleep d r b)"

section \<open>The file watcher\<close>

text \<open>What the loop reads of an \<open>fsnotify\<close> event.\<close>

record FileEvent =
  Name :: string
  IsCreate :: bool
  IsModify :: bool

datatype watch_msg = Event FileEvent | WatcherError

text \<open>
  One turn of the loop meets: the next message of the watcher and the time, in nanoseconds,
  at which it is there to be received; the calls that other goroutines make on the handle
  before the \<open>select\<close> completes; the file system when the message is handled, at the read
  of the file and at the stat that follows; and, when the
  quit channel is closed, whether the \<open>select\<close> takes it. A channel keeps what was sent to it
  until it is received: a message that is there while the loop sleeps is received after the
  sleep.
\<close>

record watch_input =
  arrival :: nat
  others :: "op list"
  snapshot :: world
  snapshotStat :: world
  msg :: watch_msg
  quitWins :: bool

text \<open>What the loop did with a message, and when: a call of \<open>openFile\<close> with the error it
  returned, nothing, or the stop.\<close>

datatype watch_log = Reloaded nat "error option" | Skipped nat | Stopped nat

definition matches :: "DB \<Rightarrow> FileEvent \<Rightarrow> bool" where
  "matches d e \<longleftrightarrow> Name e = dbfile d \<and> (IsCreate e \<or> IsModify e)"

definition triggers :: "DB \<Rightarrow> watch_msg \<Rightarrow> bool" where
  "triggers d m = (case m of Event e \<Rightarrow> matches d e | WatcherError \<Rightarrow> False)"

text \<open>
  The body of the \<open>select\<close> for a message, at time \<open>t\<close>: the value that \<open>openFile\<close> returns is
  dropped by the source; it is kept in the log only.
\<close>

definition handleMsg ::
  "env \<Rightarrow> world \<Rightarrow> world \<Rightarrow> nat \<Rightarrow> watch_msg \<Rightarrow> DB \<Rightarrow>
     panic + (DB \<times> effect list \<times> watch_log)" where
  "handleMsg ev w w2 t m d =
     (case m of
        Event e \<Rightarrow>
          (if matches d e then
             (case openFile ev w w2 d of
                Inl p \<Rightarrow> Inl p
              | Inr (err, d1, fx) \<Rightarrow> Inr (d1, fx, Reloaded t err))
           else Inr (d, [], Skipped t))
      | WatcherError \<Rightarrow> Inr (d, [], Skipped t))"

text \<open>
  The loop over the messages it has received, from the time \<open>now\<close>. A receive happens when
  the loop is ready and the message is there; after the body the loop sleeps one second.
\<close>

fun watchEvents ::
  "env \<Rightarrow> watch_input list \<Rightarrow> nat \<Rightarrow> DB \<Rightarrow> panic + (DB \<times> effect list \<times> watch_log list)" where
  "watchEvents ev [] now d = Inr (d, [], [])"
| "watchEvents ev (i # is) now d =
     (case run (others i) d of
        Inl p \<Rightarrow> Inl p
      | Inr (d1, fx1) \<Rightarrow>
          (let t = max now (arrival i)
           in if chclosed (notifyQuit d1) \<and> quitWins i then Inr (d1, fx1, [Stopped t])
              else (case handleMsg ev (snapshot i) (snapshotStat i) t (msg i) d1 of
                      Inl p \<Rightarrow> Inl p
                    | Inr (d2, fx2, l) \<Rightarrow>
                        (case watchEvents ev is (t + unat Second) d2 of
                           Inl p \<Rightarrow> Inl p
                         | Inr (d3, fx3, lg) \<Rightarrow> Inr (d3, fx1 @ fx2 @ fx3, l # lg)))))"

fun isReload :: "watch_log \<Rightarrow> bool" where
  "isReload (Reloaded t err) = True"
| "isReload l = False"

fun logTime :: "watch_log \<Rightarrow> nat" where
  "logTime (Reloaded t err) = t"
| "logTime (Skipped t) = t"
| "logTime (Stopped t) = t"

section \<open>Sample handles\<close>

text \<open>A handle on which one instance was installed and which was then closed.\<close>

definition closedSample :: DB where
  "closedSample =
     \<lparr>dbfile = ''/tmp/freegeoip/db.gz'', reader = None,
      notifyQuit = \<lparr>buf = [], cap = 0, chclosed = True\<rparr>,
      notifyOpen = \<lparr>buf = [''/tmp/freegeoip/db.gz''], cap = 1, chclosed = True\<rparr>,
      notifyError = \<lparr>buf = [], cap = 1, chclosed = True\<rparr>,
      closed = True, lastUpdated = \<lparr>instant = 10, zone = None\<rparr>,
      updateInterval = 0, maxRetryInterval = 0\<rparr>"

text \<open>A handle on which one instance was installed, and the same after a second install.\<close>

definition openSample :: DB where
  "openSample =
     \<lparr>dbfile = ''/tmp/freegeoip/db.gz'', reader = Some 1,
      notifyQuit = \<lparr>buf = [], cap = 0, chclosed = False\<rparr>,
      notifyOpen = \<lparr>buf = [''/tmp/freegeoip/db.gz''], cap = 1, chclosed = False\<rparr>,
      notifyError = \<lparr>buf = [], cap = 1, chclosed = False\<rparr>,
      closed = False, lastUpdated = \<lparr>instant = 10, zone = None\<rparr>,
      updateInterval = 0, maxRetryInterval = 0\<rparr>"

definition reinstalledSample :: DB where
  "reinstalledSample = openSample\<lparr>reader := Some 2, lastUpdated := \<lparr>instant = 5, zone = None\<rparr>\<rparr>"

section \<open>A sample environment\<close>

text \<open>
  Paths are joined with a slash and the directory of a path is what stands before its last
  slash; a gzip stream is taken to hold its bytes as they are, the empty stream being
  malformed; an instance is known by the number of bytes it was decoded from.
\<close>

definition sampleEnv :: env where
  "sampleEnv =
     \<lparr>tempDir = ''/tmp'',
      pathJoin = (\<lambda>ps. case ps of [] \<Rightarrow> [] | p # qs \<Rightarrow> foldl (\<lambda>a b. a @ ''/'' @ b) p qs),
      pathDir = (\<lambda>p. rev (tl (dropWhile (\<lambda>c. c \<noteq> CHR ''/'') (rev p)))),
      gunzip = (\<lambda>b. if b = [] then Inl (External ''gzip: unexpected EOF'') else Inr b),
      fromBytes = (\<lambda>b. Inr (length b))\<rparr>"

definition emptyWorld :: world where
  "emptyWorld = \<lparr>files = Map.empty, dirs = {''/tmp''}\<rparr>"

definition noFault :: watch_setup where
  "noFault = \<lparr>newWatcherFault = None, watchMkdirFault = None, watchFault = None\<rparr>"

text \<open>A world where the snapshot is there, and one where it is there and empty.\<close>

definition loadedWorld :: world where
  "loadedWorld =
     \<lparr>files = [''/tmp/freegeoip/db.gz'' \<mapsto>
                 \<lparr>content = [1, 2, 3], modTime = \<lparr>instant = 10, zone = Some ''Local''\<rparr>\<rparr>],
      dirs = {''/tmp'', ''/tmp/freegeoip''}\<rparr>"

definition emptyFileWorld :: world where
  "emptyFileWorld =
     \<lparr>files = [''/tmp/freegeoip/db.gz'' \<mapsto>
                 \<lparr>content = [], modTime = \<lparr>instant = 10, zone = Some ''Local''\<rparr>\<rparr>],
      dirs = {''/tmp'', ''/tmp/freegeoip''}\<rparr>"

text \<open>Handles of the remote kind: a maximum retry interval of a minute, and of a second.\<close>

definition schedSample :: DB where
  "schedSample = newDB ''/tmp/freegeoip/db.gz'' (3600 * Second) (60 * Second)"

definition shortRetrySample :: DB where
  "shortRetrySample = newDB ''/tmp/freegeoip/db.gz'' (3600 * Second) Second"

text \<open>A handle whose maximum retry interval is the greatest duration there is.\<close>

definition hugeRetrySample :: DB where
  "hugeRetrySample = newDB ''/tmp/freegeoip/db.gz'' (3600 * Second) 9223372036854775807"

text \<open>The handle \<open>schedSample\<close> after the snapshot of \<open>loadedWorld\<close> was installed.\<close>

definition loadedSample :: DB where
  "loadedSample =
     schedSample\<lparr>reader := Some 3, lastUpdated := \<lparr>instant = 10, zone = None\<rparr>,
                  notifyOpen := \<lparr>buf = [''/tmp/freegeoip/db.gz''], cap = 1, chclosed = False\<rparr>\<rparr>"

text \<open>An update cycle in which the remote answers and nothing fails, and one in which the
  copy of the body breaks after three bytes.\<close>

definition goodUpdate :: update_input where
  "goodUpdate =
     \<lparr>headResult = Inr [''Content-Length'' \<mapsto> ''5''],
      getResult = Inr [1, 2, 3, 4, 5],
      nowNano = 42,
      stamp = \<lparr>instant = 42, zone = Some ''Local''\<rparr>,
      createFault = None, copyFault = None, bakFault = None, mkdirFault = None,
      renameFault = None\<rparr>"

definition brokenCopy :: update_input where
  "brokenCopy = goodUpdate\<lparr>copyFault := Some (3, External ''unexpected EOF'')\<rparr>"

text \<open>The world \<open>loadedWorld\<close> after the update cycle \<open>goodUpdate\<close> replaced the snapshot.\<close>

definition replacedWorld :: world where
  "replacedWorld =
     \<lparr>files = [''/tmp/freegeoip/db.gz.bak'' \<mapsto>
                 \<lparr>content = [1, 2, 3], modTime = \<lparr>instant = 10, zone = Some ''Local''\<rparr>\<rparr>,
               ''/tmp/freegeoip/db.gz'' \<mapsto>
                 \<lparr>content = [1, 2, 3, 4, 5], modTime = \<lparr>instant = 42, zone = Some ''Local''\<rparr>\<rparr>],
      dirs = {''/tmp'', ''/tmp/freegeoip''}\<rparr>"

text \<open>A modify event for the snapshot, there to be received at the given time; the file
  system is the same at the read and at the stat.\<close>

definition modifyAt :: "nat \<Rightarrow> world \<Rightarrow> watch_input" where
  "modifyAt t w =
     \<lparr>arrival = t, others = [], snapshot = w, snapshotStat = w,
      msg = Event \<lparr>Name = ''/tmp/freegeoip/db.gz'', IsCreate = False, IsModify = True\<rparr>,
      quitWins = False\<rparr>"

section \<open>The invariant\<close>

lemma newDB_fields:
  "dbfile (newDB f ui mri) = f"
  "reader (newDB f ui mri) = None"
  "closed (newDB f ui mri) = False"
  "lastUpdated (newDB f ui mri) = zeroTime"
  "updateInterval (newDB f ui mri) = ui"
  "maxRetryInterval (newDB f ui mri) = mri"
  "notifyQuit (newDB f ui mri) = make_chan 0"
  "notifyOpen (newDB f ui mri) = make_chan 1"
  "notifyError (newDB f ui mri) = make_chan 1"
  by (simp_all add: newDB_def)

lemma wf_newDB: "wf (newDB f ui mri)"
  by (simp add: wf_def newDB_def make_chan_def)

lemma wf_setReader: "wf d \<Longrightarrow> setReader r t d = Inr (d', fx) \<Longrightarrow> wf d'"
  by (auto simp: wf_def setReader_def try_send_def Let_def split: if_splits)

lemma wf_sendError: "wf d \<Longrightarrow> sendError e d = Inr (d', fx) \<Longrightarrow> wf d'"
  by (auto simp: wf_def sendError_def try_send_def split: if_splits)

lemma wf_Close: "wf d \<Longrightarrow> Close d = Inr (d', fx) \<Longrightarrow> wf d'"
  by (auto simp: wf_def Close_def closeStreams_def close_chan_def split: if_splits option.splits)

lemma wf_step: "wf d \<Longrightarrow> step x d = Inr (d', fx) \<Longrightarrow> wf d'"
  by (cases x) (auto dest: wf_setReader wf_sendError wf_Close)

lemma wf_run: "wf d \<Longrightarrow> run xs d = Inr (d', fx) \<Longrightarrow> wf d'"
proof (induction xs arbitrary: d fx)
  case Nil
  then show ?case by simp
next
  case (Cons x xs)
  then show ?case
    by (auto split: sum.splits prod.splits dest: wf_step)
qed

text \<open>No operation panics on a handle that satisfies the invariant.\<close>

lemma step_no_panic: "wf d \<Longrightarrow> \<exists>d' fx. step x d = Inr (d', fx)"
  by (cases x)
     (auto simp: wf_def setReader_def sendError_def Close_def closeStreams_def close_chan_def
        try_send_def Let_def split: option.splits)

section \<open>A closed handle\<close>

lemma closed_setReader: "closed d \<Longrightarrow> setReader r t d = Inr (d, [ReaderClosed r])"
  by (simp add: setReader_def)

lemma closed_sendError: "closed d \<Longrightarrow> sendError e d = Inr (d, [])"
  by (simp add: sendError_def)

lemma closed_Close: "closed d \<Longrightarrow> reader d = None \<Longrightarrow> Close d = Inr (d, [])"
  by (simp add: Close_def closeStreams_def)

lemma closed_step:
  "closed d \<Longrightarrow> reader d = None \<Longrightarrow> \<exists>fx. step x d = Inr (d, fx)"
  by (cases x) (simp_all add: closed_setReader closed_sendError closed_Close)

lemma closed_run:
  "closed d \<Longrightarrow> reader d = None \<Longrightarrow> \<exists>fx. run xs d = Inr (d, fx)"
proof (induction xs)
  case Nil
  then show ?case by simp
next
  case (Cons x xs)
  from Cons.prems obtain fx where s: "step x d = Inr (d, fx)"
    using closed_step by blast
  from Cons obtain fx2 where r: "run xs d = Inr (d, fx2)"
    by blast
  show ?case by (simp add: s r)
qed

lemma closed_run_discards:
  "closed d \<Longrightarrow> reader d = None \<Longrightarrow> run xs d = Inr (d, discards xs)"
proof (induction xs)
  case Nil
  then show ?case by simp
next
  case (Cons x xs)
  then show ?case
    by (cases x) (simp_all add: closed_setReader closed_sendError closed_Close)
qed

lemma closedSample_reached:
  "run [SetReader 1 \<lparr>instant = 10, zone = Some ''Local''\<rparr>, CloseOp]
       (newDB ''/tmp/freegeoip/db.gz'' 0 0)
   = Inr (closedSample, [Emitted OpenStream, StreamClosed QuitStream, StreamClosed OpenStream,
                         StreamClosed ErrorStream, ReaderClosed 1])"
  by (simp add: newDB_def make_chan_def setReader_def try_send_def UTC_def Close_def
      closeStreams_def close_chan_def closedSample_def)

text \<open>
  C1. On a closed handle the install step closes the instance it was given and installs
  nothing, the handle's record (active instance, timestamp, channels, flag) being left as it
  was; \<open>sendError\<close> emits nothing; and whatever operations follow, in any number, the record
  stays the same, so the flag stays set, and the only effects are the closes of the
  instances handed to the install step.
\<close>

theorem closed_handle_is_final:
  "wf d \<Longrightarrow> closed d \<Longrightarrow>
     setReader r t d = Inr (d, [ReaderClosed r]) \<and>
     sendError e d = Inr (d, []) \<and>
     (\<forall>xs. run xs d = Inr (d, discards xs))"
  by (simp add: closed_setReader closed_sendError closed_run_discards wf_def)

theorem closed_handle_is_final_witness:
  "wf closedSample \<and> closed closedSample \<and>
   setReader 2 \<lparr>instant = 20, zone = None\<rparr> closedSample = Inr (closedSample, [ReaderClosed 2]) \<and>
   sendError ErrUnavailable closedSample = Inr (closedSample, []) \<and>
   run [SetReader 2 \<lparr>instant = 20, zone = None\<rparr>, SendError ErrUnavailable, CloseOp] closedSample
     = Inr (closedSample, [ReaderClosed 2])"
proof -
  have w: "wf closedSample" by (simp add: wf_def closedSample_def)
  have c: "closed closedSample" by (simp add: closedSample_def)
  from closed_handle_is_final [OF w c, of 2 "\<lparr>instant = 20, zone = None\<rparr>" ErrUnavailable]
  show ?thesis using w c by simp
qed

lemma openSample_reached:
  "run [SetReader 1 \<lparr>instant = 10, zone = Some ''Local''\<rparr>] (newDB ''/tmp/freegeoip/db.gz'' 0 0)
   = Inr (openSample, [Emitted OpenStream])"
  by (simp add: newDB_def make_chan_def setReader_def try_send_def UTC_def openSample_def)

lemma wf_openSample: "wf openSample"
  by (simp add: wf_def openSample_def)

section \<open>Lookup\<close>

lemma Close_result:
  "Close d = Inr (d1, fx) \<Longrightarrow> closed d1 \<and> reader d1 = None"
  by (auto simp: Close_def closeStreams_def close_chan_def split: if_splits option.splits sum.splits)

lemma Close_no_panic: "wf d \<Longrightarrow> \<exists>d1 fx. Close d = Inr (d1, fx)"
  using step_no_panic [of d CloseOp] by simp

text \<open>
  C5. \<open>Lookup\<close> returns what the active instance's own lookup returns, result or error,
  when there is an active instance, and the unavailable error when there is none. After
  \<open>Close\<close>, whatever operations follow (install attempts included), every \<open>Lookup\<close> returns
  the unavailable error.
\<close>

theorem lookup_delegates_or_unavailable:
  "wf d \<Longrightarrow>
     (\<forall>r. reader d = Some r \<longrightarrow> Lookup rl d a = rl r a) \<and>
     (reader d = None \<longrightarrow> Lookup rl d a = Inl ErrUnavailable) \<and>
     (\<exists>d1 fx. Close d = Inr (d1, fx) \<and>
        (\<forall>xs. \<exists>d2 fx2. run xs d1 = Inr (d2, fx2) \<and> Lookup rl d2 a = Inl ErrUnavailable))"
proof -
  assume w: "wf d"
  from Close_no_panic [OF w] obtain d1 fx where c: "Close d = Inr (d1, fx)" by blast
  from Close_result [OF c] have cl: "closed d1" and rn: "reader d1 = None" by simp_all
  have "\<forall>xs. \<exists>d2 fx2. run xs d1 = Inr (d2, fx2) \<and> Lookup rl d2 a = Inl ErrUnavailable"
    using closed_run_discards [OF cl rn] rn by (simp add: Lookup_def)
  with c show ?thesis by (simp add: Lookup_def)
qed

theorem lookup_delegates_or_unavailable_witness:
  "wf openSample \<and>
   Lookup (\<lambda>r a. Inr (r, length a)) openSample [127, 0, 0, 1] = Inr (1, 4) \<and>
   (\<exists>d1 fx. Close openSample = Inr (d1, fx) \<and>
      (\<forall>xs. \<exists>d2 fx2. run xs d1 = Inr (d2, fx2) \<and>
         Lookup (\<lambda>r a. Inr (r, length a)) d2 [127, 0, 0, 1] = Inl ErrUnavailable))"
proof -
  have r: "reader openSample = Some 1" by (simp add: openSample_def)
  from lookup_delegates_or_unavailable
         [OF wf_openSample, of "\<lambda>r a. Inr (r, length a)" "[127, 0, 0, 1]"] r wf_openSample
  show ?thesis by simp
qed

section \<open>Close\<close>

lemma setReader_stream_closes:
  "setReader r t d = Inr (d', fx) \<Longrightarrow>
     count_list fx (StreamClosed s) = 0 \<and> closed d' = closed d"
  by (auto simp: setReader_def try_send_def Let_def split: option.splits if_splits)

lemma sendError_stream_closes:
  "sendError e d = Inr (d', fx) \<Longrightarrow>
     count_list fx (StreamClosed s) = 0 \<and> closed d' = closed d"
  by (auto simp: sendError_def try_send_def split: if_splits)

lemma closeStreams_stream_closes:
  "closeStreams d = Inr (d', fx) \<Longrightarrow>
     count_list fx (StreamClosed s) = (if closed d then 0 else 1) \<and> closed d' \<and>
     reader d' = reader d"
  by (cases s) (auto simp: closeStreams_def close_chan_def split: if_splits)

lemma Close_stream_closes:
  "Close d = Inr (d', fx) \<Longrightarrow>
     count_list fx (StreamClosed s) = (if closed d then 0 else 1) \<and> closed d'"
  by (auto simp: Close_def split: sum.splits prod.splits option.splits
        dest: closeStreams_stream_closes [where s = s])

lemma step_stream_closes:
  "step x d = Inr (d', fx) \<Longrightarrow>
     count_list fx (StreamClosed s) = (if closed d' \<and> \<not> closed d then 1 else 0) \<and>
     (closed d \<longrightarrow> closed d')"
  by (cases x)
     (auto dest: setReader_stream_closes [where s = s] sendError_stream_closes [where s = s]
        Close_stream_closes [where s = s])

lemma run_Cons_Inr:
  "run (x # xs) d = Inr (d', fx) \<Longrightarrow>
     \<exists>d1 fx1 fx2. step x d = Inr (d1, fx1) \<and> run xs d1 = Inr (d', fx2) \<and> fx = fx1 @ fx2"
  by (cases "step x d"; cases "run xs (fst (projr (step x d)))") auto

lemma run_stream_closes:
  "run xs d = Inr (d', fx) \<Longrightarrow>
     count_list fx (StreamClosed s) = (if closed d' \<and> \<not> closed d then 1 else 0) \<and>
     (closed d \<longrightarrow> closed d')"
proof (induction xs arbitrary: d fx)
  case Nil
  then show ?case by auto
next
  case (Cons x xs)
  from run_Cons_Inr [OF Cons.prems] obtain d1 fx1 fx2 where
    s: "step x d = Inr (d1, fx1)" and r: "run xs d1 = Inr (d', fx2)" and f: "fx = fx1 @ fx2"
    by blast
  have a: "count_list fx1 (StreamClosed s) = (if closed d1 \<and> \<not> closed d then 1 else 0)"
    and a': "closed d \<longrightarrow> closed d1"
    using step_stream_closes [OF s, of s] by simp_all
  have b: "count_list fx2 (StreamClosed s) = (if closed d' \<and> \<not> closed d1 then 1 else 0)"
    and b': "closed d1 \<longrightarrow> closed d'"
    using Cons.IH [OF r] by simp_all
  have "count_list fx (StreamClosed s) = count_list fx1 (StreamClosed s) + count_list fx2 (StreamClosed s)"
    by (simp add: f)
  with a a' b b' show ?case by (cases "closed d"; cases "closed d1"; cases "closed d'") simp_all
qed

lemma run_no_panic: "wf d \<Longrightarrow> \<exists>d' fx. run xs d = Inr (d', fx)"
proof (induction xs arbitrary: d)
  case Nil
  then show ?case by simp
next
  case (Cons x xs)
  from step_no_panic [OF Cons.prems, of x] obtain d1 fx1 where s: "step x d = Inr (d1, fx1)"
    by blast
  from Cons.IH [OF wf_step [OF Cons.prems s]] obtain d2 fx2 where "run xs d1 = Inr (d2, fx2)"
    by blast
  with s show ?case by simp
qed

text \<open>
  C8. \<open>Close\<close> never panics on a handle that satisfies the invariant. It leaves the handle
  closed, with no active instance and the three channels closed; it closes each channel once
  when the handle was open and not at all when it was closed already. A second \<open>Close\<close>
  changes nothing and has no effect. In any sequence of operations, however many of them are
  \<open>Close\<close>, nothing panics and each channel is closed at most once.
\<close>

theorem close_is_idempotent:
  "wf d \<Longrightarrow>
     (\<exists>d1 fx. Close d = Inr (d1, fx) \<and> closed d1 \<and> reader d1 = None \<and>
        chclosed (notifyQuit d1) \<and> chclosed (notifyOpen d1) \<and> chclosed (notifyError d1) \<and>
        (\<forall>s. count_list fx (StreamClosed s) = (if closed d then 0 else 1)) \<and>
        Close d1 = Inr (d1, [])) \<and>
     (\<forall>xs. \<exists>d2 fx2. run xs d = Inr (d2, fx2) \<and> (\<forall>s. count_list fx2 (StreamClosed s) \<le> 1))"
proof -
  assume w: "wf d"
  from Close_no_panic [OF w] obtain d1 fx where c: "Close d = Inr (d1, fx)" by blast
  from Close_result [OF c] have cl: "closed d1" and rn: "reader d1 = None" by simp_all
  have w1: "wf d1" using wf_Close [OF w c] .
  have s: "step CloseOp d = Inr (d1, fx)" using c by simp
  have cnt: "\<forall>s. count_list fx (StreamClosed s) = (if closed d then 0 else 1)"
    using step_stream_closes [OF s] cl by simp
  have first: "\<exists>d1 fx. Close d = Inr (d1, fx) \<and> closed d1 \<and> reader d1 = None \<and>
        chclosed (notifyQuit d1) \<and> chclosed (notifyOpen d1) \<and> chclosed (notifyError d1) \<and>
        (\<forall>s. count_list fx (StreamClosed s) = (if closed d then 0 else 1)) \<and>
        Close d1 = Inr (d1, [])"
    using c cl rn w1 cnt closed_Close [OF cl rn] by (auto simp: wf_def)
  have second: "\<forall>xs. \<exists>d2 fx2. run xs d = Inr (d2, fx2) \<and>
      (\<forall>s. count_list fx2 (StreamClosed s) \<le> 1)"
  proof
    fix xs
    from run_no_panic [OF w, of xs] obtain d2 fx2 where r: "run xs d = Inr (d2, fx2)" by blast
    have "\<forall>s. count_list fx2 (StreamClosed s) \<le> 1"
      using run_stream_closes [OF r] by simp
    with r show "\<exists>d2 fx2. run xs d = Inr (d2, fx2) \<and> (\<forall>s. count_list fx2 (StreamClosed s) \<le> 1)"
      by blast
  qed
  from first second show ?thesis by blast
qed

theorem close_is_idempotent_witness:
  "wf openSample \<and>
   run [CloseOp, CloseOp] openSample =
     Inr (closedSample, [StreamClosed QuitStream, StreamClosed OpenStream,
                         StreamClosed ErrorStream, ReaderClosed 1]) \<and>
   (\<exists>d2 fx2. run [CloseOp, CloseOp] openSample = Inr (d2, fx2) \<and>
      (\<forall>s. count_list fx2 (StreamClosed s) \<le> 1))"
proof -
  have r: "run [CloseOp, CloseOp] openSample =
     Inr (closedSample, [StreamClosed QuitStream, StreamClosed OpenStream,
                         StreamClosed ErrorStream, ReaderClosed 1])"
    by (simp add: openSample_def closedSample_def Close_def closeStreams_def close_chan_def)
  from close_is_idempotent [OF wf_openSample] have
    "\<exists>d2 fx2. run [CloseOp, CloseOp] openSample = Inr (d2, fx2) \<and>
      (\<forall>s. count_list fx2 (StreamClosed s) \<le> 1)" by blast
  with r wf_openSample show ?thesis by blast
qed


section \<open>The timestamp\<close>

lemma step_noInstall:
  "\<not> installs x d \<Longrightarrow> step x d = Inr (d', fx) \<Longrightarrow> lastUpdated d' = lastUpdated d"
  by (cases x)
     (auto simp: setReader_def sendError_def Close_def closeStreams_def close_chan_def
        try_send_def split: if_splits option.splits sum.splits prod.splits)

lemma run_noInstall:
  "noInstall xs d \<Longrightarrow> run xs d = Inr (d', fx) \<Longrightarrow> lastUpdated d' = lastUpdated d"
proof (induction xs arbitrary: d fx)
  case Nil
  then show ?case by simp
next
  case (Cons x xs)
  from run_Cons_Inr [OF Cons.prems(2)] obtain d1 fx1 fx2 where
    s: "step x d = Inr (d1, fx1)" and r: "run xs d1 = Inr (d', fx2)"
    by blast
  from Cons.prems(1) s have n: "\<not> installs x d" and n1: "noInstall xs d1" by simp_all
  from step_noInstall [OF n s] Cons.IH [OF n1 r] show ?case by simp
qed

lemma openFile_fails:
  "newReader ev w (dbfile d) = Inl e \<Longrightarrow> openFile ev w w2 d = Inr (Some e, d, [])"
  by (simp add: openFile_def)

lemma openFile_error:
  "openFile ev w w2 d = Inr (Some e, d1, fx) \<Longrightarrow> d1 = d \<and> fx = []"
  by (auto simp: openFile_def split: sum.splits option.splits prod.splits)

lemma OpenURL_unloaded:
  "openFile ev w w2 (newDB (defaultDB ev) ui mri) = Inr (Some e, d1, fx) \<Longrightarrow>
     OpenURL ev w w2 ui mri ws = Inr (Inr d, w1) \<Longrightarrow> d = newDB (defaultDB ev) ui mri"
  by (auto simp: OpenURL_def Let_def split: prod.splits option.splits sum.splits
        dest: openFile_error)

text \<open>
  C10. A handle returned by \<open>OpenURL\<close> whose initial load failed (at the read of the file or
  at the stat) has the zero time as its date, and keeps it through every sequence of
  operations in which no install step runs on the open handle.
\<close>

theorem date_is_zero_before_first_install:
  "openFile ev w w2 (newDB (defaultDB ev) ui mri) = Inr (Some e, d1, fx0) \<Longrightarrow>
     OpenURL ev w w2 ui mri ws = Inr (Inr d, w1) \<Longrightarrow>
     Date d = zeroTime \<and>
     (\<forall>xs d' fx. noInstall xs d \<longrightarrow> run xs d = Inr (d', fx) \<longrightarrow> Date d' = zeroTime)"
proof -
  assume a: "openFile ev w w2 (newDB (defaultDB ev) ui mri) = Inr (Some e, d1, fx0)"
    and b: "OpenURL ev w w2 ui mri ws = Inr (Inr d, w1)"
  have z: "lastUpdated d = zeroTime"
    using OpenURL_unloaded [OF a b] by (simp add: newDB_def)
  show ?thesis using z run_noInstall by (simp add: Date_def)
qed

lemma sample_load_fails:
  "openFile sampleEnv emptyWorld emptyWorld (newDB (defaultDB sampleEnv) 3600 60)
     = Inr (Some (External ''open: no such file or directory''), newDB (defaultDB sampleEnv) 3600 60, [])"
  by (simp add: openFile_def newReader_def emptyWorld_def)

lemma sample_OpenURL:
  "OpenURL sampleEnv emptyWorld emptyWorld 3600 60 noFault =
     Inr (Inr (newDB ''/tmp/freegeoip/db.gz'' 3600 60),
          \<lparr>files = Map.empty, dirs = {''/tmp/freegeoip'', ''/tmp''}\<rparr>)"
  by (simp add: OpenURL_def openFile_def newReader_def emptyWorld_def defaultDB_def sampleEnv_def
      watchFile_def noFault_def makeDir_def pathExists_def Let_def newDB_fields insert_commute)

theorem date_is_zero_before_first_install_witness:
  "Date (newDB ''/tmp/freegeoip/db.gz'' 3600 60) = zeroTime \<and>
   noInstall [SendError (UpdateFailed (External ''timeout'')), DateOp, CloseOp,
              SetReader 7 \<lparr>instant = 99, zone = None\<rparr>] (newDB ''/tmp/freegeoip/db.gz'' 3600 60) \<and>
   (\<exists>d' fx. run [SendError (UpdateFailed (External ''timeout'')), DateOp, CloseOp,
                  SetReader 7 \<lparr>instant = 99, zone = None\<rparr>] (newDB ''/tmp/freegeoip/db.gz'' 3600 60)
              = Inr (d', fx) \<and> Date d' = zeroTime)"
proof -
  have n: "noInstall [SendError (UpdateFailed (External ''timeout'')), DateOp, CloseOp,
              SetReader 7 \<lparr>instant = 99, zone = None\<rparr>] (newDB ''/tmp/freegeoip/db.gz'' 3600 60)"
    by (simp add: newDB_def make_chan_def sendError_def try_send_def Close_def closeStreams_def
        close_chan_def setReader_def)
  from run_no_panic [OF wf_newDB] obtain d' fx where
    r: "run [SendError (UpdateFailed (External ''timeout'')), DateOp, CloseOp,
             SetReader 7 \<lparr>instant = 99, zone = None\<rparr>] (newDB ''/tmp/freegeoip/db.gz'' 3600 60)
        = Inr (d', fx)"
    by blast
  from date_is_zero_before_first_install [OF sample_load_fails sample_OpenURL] n r
  show ?thesis by blast
qed

text \<open>
  C2 (as amended). An install on a handle that is not closed makes the given instance the
  active one and sets the date to the modification time it was given, in UTC; the date goes
  back exactly when that time is earlier than the date before. When the install comes from
  \<open>openFile\<close>, the instance is decoded from the file that is at the handle's path at the
  read, and the time is the modification time of the file that is at the path at the stat
  that follows: the modification time of the file that the instance was decoded from when
  the path holds the same file at both.
\<close>

theorem install_takes_file_time:
  "\<not> closed d \<Longrightarrow>
     (\<forall>r t d' fx. setReader r t d = Inr (d', fx) \<longrightarrow>
        reader d' = Some r \<and> Date d' = UTC t \<and> (before (Date d') (Date d) \<longleftrightarrow> before t (Date d))) \<and>
     (\<forall>ev w w2 d' fx. openFile ev w w2 d = Inr (None, d', fx) \<longrightarrow>
        (\<exists>f2 r. files w2 (dbfile d) = Some f2 \<and> newReader ev w (dbfile d) = Inr r \<and>
           reader d' = Some r \<and> Date d' = UTC (modTime f2))) \<and>
     (\<forall>ev w w2 d' fx. openFile ev w w2 d = Inr (None, d', fx) \<longrightarrow>
        files w2 (dbfile d) = files w (dbfile d) \<longrightarrow>
        (\<exists>f r. files w (dbfile d) = Some f \<and> newReader ev w (dbfile d) = Inr r \<and>
           reader d' = Some r \<and> Date d' = UTC (modTime f)))"
proof -
  assume c: "\<not> closed d"
  have s: "\<forall>r t d' fx. setReader r t d = Inr (d', fx) \<longrightarrow>
        reader d' = Some r \<and> Date d' = UTC t \<and> (before (Date d') (Date d) \<longleftrightarrow> before t (Date d))"
    using c
    by (auto simp: setReader_def try_send_def Date_def before_def UTC_def Let_def
        split: if_splits)
  have o: "\<forall>ev w w2 d' fx. openFile ev w w2 d = Inr (None, d', fx) \<longrightarrow>
        (\<exists>f2 r. files w2 (dbfile d) = Some f2 \<and> newReader ev w (dbfile d) = Inr r \<and>
           reader d' = Some r \<and> Date d' = UTC (modTime f2))"
    using s by (auto simp: openFile_def split: sum.splits option.splits prod.splits)
  have o2: "\<forall>ev w w2 d' fx. openFile ev w w2 d = Inr (None, d', fx) \<longrightarrow>
        files w2 (dbfile d) = files w (dbfile d) \<longrightarrow>
        (\<exists>f r. files w (dbfile d) = Some f \<and> newReader ev w (dbfile d) = Inr r \<and>
           reader d' = Some r \<and> Date d' = UTC (modTime f))"
  proof (intro allI impI)
    fix ev w w2 d' fx
    assume a: "openFile ev w w2 d = Inr (None, d', fx)"
      and e: "files w2 (dbfile d) = files w (dbfile d)"
    from o a obtain f2 r where f: "files w2 (dbfile d) = Some f2"
      and rest: "newReader ev w (dbfile d) = Inr r" "reader d' = Some r" "Date d' = UTC (modTime f2)"
      by blast
    from f e have "files w (dbfile d) = Some f2" by simp
    with rest show "\<exists>f r. files w (dbfile d) = Some f \<and> newReader ev w (dbfile d) = Inr r \<and>
           reader d' = Some r \<and> Date d' = UTC (modTime f)"
      by blast
  qed
  from s o o2 show ?thesis by blast
qed

theorem install_takes_file_time_witness:
  "\<not> closed openSample \<and> reader reinstalledSample = Some 2 \<and>
   Date reinstalledSample = UTC \<lparr>instant = 5, zone = Some ''Local''\<rparr> \<and>
   (before (Date reinstalledSample) (Date openSample) \<longleftrightarrow>
      before \<lparr>instant = 5, zone = Some ''Local''\<rparr> (Date openSample))"
proof -
  have c: "\<not> closed openSample" by (simp add: openSample_def)
  have s: "setReader 2 \<lparr>instant = 5, zone = Some ''Local''\<rparr> openSample = Inr (reinstalledSample, [ReaderClosed 1])"
    by (simp add: openSample_def reinstalledSample_def setReader_def try_send_def UTC_def)
  from install_takes_file_time [OF c] s c show ?thesis by blast
qed


text \<open>
  The date is not monotone: installing a file whose modification time is earlier than the
  date of the handle moves the date back.
\<close>

theorem install_older_file_counterexample:
  "\<not> closed openSample \<and>
   setReader 2 \<lparr>instant = 5, zone = Some ''Local''\<rparr> openSample = Inr (reinstalledSample, [ReaderClosed 1]) \<and>
   before (Date reinstalledSample) (Date openSample)"
  by (simp add: openSample_def reinstalledSample_def setReader_def try_send_def UTC_def Date_def
      before_def)



section \<open>The backoff of the scheduler\<close>

lemma sint_Second5: "sint (5 * Second :: 64 word) = 5000000000"
  by (simp add: Second_def)

lemma sint_double:
  fixes s :: "64 word"
  assumes "0 \<le> sint s" "sint s < 2 ^ 62"
  shows "sint (s * 2) = 2 * sint s"
proof -
  have "sint (s * 2) = signed_take_bit 63 (sint s * sint (2 :: 64 word))"
    by (simp add: sint_word_ariths)
  also have "sint (2 :: 64 word) = 2" by simp
  also have "signed_take_bit 63 (sint s * 2) = sint s * 2"
    using assms by (intro signed_take_bit_int_eq_self) auto
  finally show ?thesis by simp
qed

lemma nextSleep_first:
  "\<not> retrying b \<Longrightarrow> nextSleep d (Some e) b = \<lparr>sleep = 5 * Second, retrying = True\<rparr>"
  by (simp add: nextSleep_def)

lemma nextSleep_again:
  "retrying b \<Longrightarrow> nextSleep d (Some e) b =
     \<lparr>sleep = (if maxRetryInterval d <s sleep b * 2 then maxRetryInterval d else sleep b * 2),
      retrying = True\<rparr>"
  by (simp add: nextSleep_def Let_def)

lemma nextSleep_success:
  "nextSleep d None b = \<lparr>sleep = updateInterval d, retrying = False\<rparr>"
  by (simp add: nextSleep_def)

lemma capped_double:
  fixes m v :: int
  assumes "0 < m" "v = min (5000000000 * 2 ^ k) m"
  shows "(if m < 2 * v then m else 2 * v) = min (5000000000 * 2 ^ Suc k) m"
  using assms by (auto simp: min_def)

lemma nextSleep_closed_form_step:
  assumes m1: "5000000000 \<le> sint (maxRetryInterval d)" and m2: "sint (maxRetryInterval d) < 2 ^ 62"
    and r: "retrying b" and s: "sint (sleep b) = min (5000000000 * 2 ^ k) (sint (maxRetryInterval d))"
  shows "retrying (nextSleep d (Some e) b) \<and>
         sint (sleep (nextSleep d (Some e) b)) = min (5000000000 * 2 ^ Suc k) (sint (maxRetryInterval d))"
proof -
  let ?m = "sint (maxRetryInterval d)"
  have pos: "0 \<le> sint (sleep b)" using s m1 by (simp add: min_def)
  have lt: "sint (sleep b) < 2 ^ 62" using s m2 by (simp add: min_def split: if_splits)
  have dbl: "sint (sleep b * 2) = 2 * sint (sleep b)" using sint_double [OF pos lt] .
  have "sint (sleep (nextSleep d (Some e) b)) = (if ?m < 2 * sint (sleep b) then ?m else 2 * sint (sleep b))"
    using r dbl by (simp add: nextSleep_again word_sless_alt)
  also have "\<dots> = min (5000000000 * 2 ^ Suc k) ?m"
    using capped_double [of ?m "sint (sleep b)" k] m1 s by simp
  finally show ?thesis using r by (simp add: nextSleep_again)
qed

lemma waits_closed_form_retrying:
  assumes m1: "5000000000 \<le> sint (maxRetryInterval d)" and m2: "sint (maxRetryInterval d) < 2 ^ 62"
  shows "retrying b \<Longrightarrow> sint (sleep b) = min (5000000000 * 2 ^ k) (sint (maxRetryInterval d)) \<Longrightarrow>
     n < length es \<Longrightarrow>
     sint (waits d (map Some es) b ! n) = min (5000000000 * 2 ^ (k + n + 1)) (sint (maxRetryInterval d))"
proof (induction es arbitrary: b k n)
  case Nil
  then show ?case by simp
next
  case (Cons e es)
  from nextSleep_closed_form_step [OF m1 m2 Cons.prems(1) Cons.prems(2), of e]
  have r1: "retrying (nextSleep d (Some e) b)"
    and s1: "sint (sleep (nextSleep d (Some e) b)) = min (5000000000 * 2 ^ Suc k) (sint (maxRetryInterval d))"
    by simp_all
  show ?case
  proof (cases n)
    case 0
    then show ?thesis using s1 by simp
  next
    case (Suc j)
    with Cons.prems(3) have j: "j < length es" by simp
    from Cons.IH [OF r1 s1 j] Suc show ?thesis by simp
  qed
qed

lemma step_config:
  "step x d = Inr (d', fx) \<Longrightarrow>
     maxRetryInterval d' = maxRetryInterval d \<and> updateInterval d' = updateInterval d \<and>
     dbfile d' = dbfile d"
  by (cases x)
     (auto simp: setReader_def sendError_def Close_def closeStreams_def close_chan_def
        try_send_def Let_def split: if_splits option.splits sum.splits prod.splits)

lemma run_config:
  "run xs d = Inr (d', fx) \<Longrightarrow>
     maxRetryInterval d' = maxRetryInterval d \<and> updateInterval d' = updateInterval d \<and>
     dbfile d' = dbfile d"
proof (induction xs arbitrary: d fx)
  case Nil
  then show ?case by simp
next
  case (Cons x xs)
  from run_Cons_Inr [OF Cons.prems] obtain d1 fx1 fx2 where
    s: "step x d = Inr (d1, fx1)" and r: "run xs d1 = Inr (d', fx2)"
    by blast
  from step_config [OF s] Cons.IH [OF r] show ?case by simp
qed

lemma nextSleep_config:
  "maxRetryInterval d' = maxRetryInterval d \<Longrightarrow> updateInterval d' = updateInterval d \<Longrightarrow>
     nextSleep d' err b = nextSleep d err b"
  by (cases err) (simp_all add: nextSleep_def Let_def cong: if_cong)

lemma waits_config:
  assumes m: "maxRetryInterval d' = maxRetryInterval d" and u: "updateInterval d' = updateInterval d"
  shows "waits d' rs b = waits d rs b"
proof (induction rs arbitrary: b)
  case Nil
  show ?case by simp
next
  case (Cons r rs)
  have n: "nextSleep d' r b = nextSleep d r b" using m u by (rule nextSleep_config)
  show ?case by (simp only: waits.simps n Cons.IH)
qed

lemma autoUpdate_Cons_Inr:
  assumes "autoUpdate ev url (c # cs) b w d = Inr (w', d', fx, lg)"
  obtains err w1 fx1 d1 fx2 d2 fx3 where
    "runUpdate ev w d url (update c) = (err, w1, fx1)"
    "step (case err of Some e \<Rightarrow> SendError (UpdateFailed e) | None \<Rightarrow> DateOp) d = Inr (d1, fx2)"
    "run (meanwhile c) d1 = Inr (d2, fx3)"
    "lg = [(err, sleep (nextSleep d1 err b))] \<or>
     (\<exists>fx4 lg'. autoUpdate ev url cs (nextSleep d1 err b) w1 d2 = Inr (w', d', fx4, lg') \<and>
        lg = (err, sleep (nextSleep d1 err b)) # lg')"
  using assms
  by (auto simp: Let_def split: prod.splits sum.splits option.splits if_splits)

lemma autoUpdate_waits:
  "autoUpdate ev url cs b w d = Inr (w', d', fx, lg) \<Longrightarrow> map snd lg = waits d (map fst lg) b"
proof (induction cs arbitrary: b w d fx lg)
  case Nil
  then show ?case by simp
next
  case (Cons c cs)
  from Cons.prems obtain err w1 fx1 d1 fx2 d2 fx3 where
    s: "step (case err of Some e \<Rightarrow> SendError (UpdateFailed e) | None \<Rightarrow> DateOp) d = Inr (d1, fx2)"
    and r: "run (meanwhile c) d1 = Inr (d2, fx3)"
    and l: "lg = [(err, sleep (nextSleep d1 err b))] \<or>
     (\<exists>fx4 lg'. autoUpdate ev url cs (nextSleep d1 err b) w1 d2 = Inr (w', d', fx4, lg') \<and>
        lg = (err, sleep (nextSleep d1 err b)) # lg')"
    by (rule autoUpdate_Cons_Inr)
  have c1: "maxRetryInterval d1 = maxRetryInterval d" "updateInterval d1 = updateInterval d"
    using step_config [OF s] by simp_all
  have c2: "maxRetryInterval d2 = maxRetryInterval d" "updateInterval d2 = updateInterval d"
    using run_config [OF r] c1 by simp_all
  have n: "nextSleep d1 err b = nextSleep d err b"
    using c1 by (rule nextSleep_config)
  from l show ?case
  proof
    assume "lg = [(err, sleep (nextSleep d1 err b))]"
    then show ?thesis by (simp add: n)
  next
    assume "\<exists>fx4 lg'. autoUpdate ev url cs (nextSleep d1 err b) w1 d2 = Inr (w', d', fx4, lg') \<and>
        lg = (err, sleep (nextSleep d1 err b)) # lg'"
    then obtain fx4 lg' where
      a: "autoUpdate ev url cs (nextSleep d1 err b) w1 d2 = Inr (w', d', fx4, lg')"
      and e: "lg = (err, sleep (nextSleep d1 err b)) # lg'"
      by blast
    from Cons.IH [OF a] have "map snd lg' = waits d2 (map fst lg') (nextSleep d1 err b)" .
    also have "\<dots> = waits d (map fst lg') (nextSleep d err b)"
      using waits_config [OF c2] by (simp add: n)
    finally show ?thesis by (simp add: e n)
  qed
qed

lemma schedSample_waits:
  "map sint (waits schedSample
     [Some (External ''a''), Some (External ''b''), Some (External ''c''), Some (External ''d''),
      Some (External ''e''), Some (External ''f''), None, Some (External ''g'')] backoff0)
   = [5000000000, 10000000000, 20000000000, 40000000000, 60000000000, 60000000000,
      3600000000000, 5000000000]"
  by (simp add: schedSample_def newDB_def backoff0_def nextSleep_def Second_def Let_def
      word_sless_alt)

text \<open>
  With the greatest duration as the maximum retry interval, the doubling wraps around at the
  failure number 32 of a run: the wait is negative.
\<close>

lemma backoff_overflow_step:
  "sint (sleep (nextSleep hugeRetrySample (Some (External ''timeout''))
           \<lparr>sleep = 5368709120000000000, retrying = True\<rparr>)) = - 7709325833709551616"
  by (simp add: hugeRetrySample_def newDB_fields nextSleep_def Let_def word_sless_alt)

lemma backoff_overflow:
  "sint (last (waits hugeRetrySample (replicate 32 (Some (External ''timeout''))) backoff0))
     = - 7709325833709551616"
  by (simp add: eval_nat_numeral hugeRetrySample_def newDB_fields backoff0_def nextSleep_def
      Second_def Let_def word_sless_alt)

text \<open>
  C3 (as amended). The first failure after a success, or at the start of the loop, gives a
  wait of five seconds, whatever the maximum retry interval is. Each failure that follows a
  failure doubles the wait in 64-bit arithmetic and replaces the double by the maximum when
  the double is greater. A success gives the base refresh interval and ends the retrying.
  When the maximum retry interval is at least five seconds and less than \<open>2 ^ 62\<close> nanoseconds,
  the wait after the failure number \<open>n + 1\<close> of a run of failures is the smaller of five
  seconds times \<open>2 ^ n\<close> and the maximum. The waits of the loop are those that the branch
  gives for the results of its cycles.
\<close>

theorem backoff_schedule:
  "(\<not> retrying b \<longrightarrow> nextSleep d (Some e) b = \<lparr>sleep = 5 * Second, retrying = True\<rparr>) \<and>
   (retrying b \<longrightarrow> nextSleep d (Some e) b =
      \<lparr>sleep = (if maxRetryInterval d <s sleep b * 2 then maxRetryInterval d else sleep b * 2),
       retrying = True\<rparr>) \<and>
   nextSleep d None b = \<lparr>sleep = updateInterval d, retrying = False\<rparr> \<and>
   (5000000000 \<le> sint (maxRetryInterval d) \<longrightarrow> sint (maxRetryInterval d) < 2 ^ 62 \<longrightarrow>
    \<not> retrying b \<longrightarrow> n < length es \<longrightarrow>
      sint (waits d (map Some es) b ! n) = min (5000000000 * 2 ^ n) (sint (maxRetryInterval d))) \<and>
   (\<forall>ev url cs w w' d' fx lg.
      autoUpdate ev url cs b w d = Inr (w', d', fx, lg) \<longrightarrow>
        map snd lg = waits d (map fst lg) b)"
proof -
  have cf: "sint (waits d (map Some es) b ! n) = min (5000000000 * 2 ^ n) (sint (maxRetryInterval d))"
    if m1: "5000000000 \<le> sint (maxRetryInterval d)" and m2: "sint (maxRetryInterval d) < 2 ^ 62"
      and nr: "\<not> retrying b" and n: "n < length es"
  proof (cases es)
    case Nil
    with n show ?thesis by simp
  next
    case (Cons e0 es0)
    let ?b1 = "nextSleep d (Some e0) b"
    have b1: "?b1 = \<lparr>sleep = 5 * Second, retrying = True\<rparr>" using nr by (rule nextSleep_first)
    have r1: "retrying ?b1" by (simp add: b1)
    have s1: "sint (sleep ?b1) = min (5000000000 * 2 ^ 0) (sint (maxRetryInterval d))"
      using m1 by (simp add: b1 sint_Second5)
    show ?thesis
    proof (cases n)
      case 0
      then show ?thesis using Cons s1 by simp
    next
      case (Suc j)
      with n Cons have j: "j < length es0" by simp
      from waits_closed_form_retrying [OF m1 m2 r1 s1 j] Suc Cons show ?thesis by simp
    qed
  qed
  have lp: "\<forall>ev url cs w w' d' fx lg.
      autoUpdate ev url cs b w d = Inr (w', d', fx, lg) \<longrightarrow>
        map snd lg = waits d (map fst lg) b"
    using autoUpdate_waits by blast
  show ?thesis
    using cf lp by (simp add: nextSleep_first nextSleep_again nextSleep_success)
qed


theorem backoff_schedule_witness:
  "5000000000 \<le> sint (maxRetryInterval schedSample) \<and>
   sint (maxRetryInterval schedSample) < 2 ^ 62 \<and>
   \<not> retrying backoff0 \<and>
   nextSleep schedSample (Some (External ''timeout'')) backoff0 = \<lparr>sleep = 5 * Second, retrying = True\<rparr> \<and>
   sint (waits schedSample
          (map Some [External ''a'', External ''b'', External ''c'', External ''d'', External ''e''])
          backoff0 ! 4) = 60000000000"
proof -
  have m: "sint (maxRetryInterval schedSample) = 60000000000"
    by (simp add: schedSample_def newDB_fields Second_def)
  have r: "\<not> retrying backoff0" by (simp add: backoff0_def)
  from backoff_schedule [of backoff0 schedSample "External ''timeout''" 4
      "[External ''a'', External ''b'', External ''c'', External ''d'', External ''e'']"] m r
  show ?thesis by simp
qed

text \<open>
  With a maximum retry interval of one second the first wait is five seconds, not the
  smaller of five seconds and the maximum.
\<close>

theorem short_retry_counterexample:
  "map sint (waits shortRetrySample [Some (External ''a''), Some (External ''b'')] backoff0)
     = [5000000000, 1000000000] \<and>
   min (5000000000 * 2 ^ (1 - 1)) (sint (maxRetryInterval shortRetrySample)) = 1000000000"
  by (simp add: shortRetrySample_def newDB_def backoff0_def nextSleep_def Second_def Let_def
      word_sless_alt)


section \<open>The staleness check\<close>

lemma Atoi_empty: "Atoi [] = (0, Some ErrSyntax)"
  by (simp add: Atoi_def)

lemma Atoi_garbage: "Atoi ''unknown'' = (0, Some ErrSyntax)"
  by (simp add: Atoi_def isDigit_def)

lemma Atoi_5: "Atoi ''5'' = (5, None)"
  by (simp add: Atoi_def isDigit_def)

lemma needUpdate_missing_file:
  "files w (dbfile d) = None \<Longrightarrow> needUpdate w d url hr = ((True, None), [])"
  by (simp add: needUpdate_def)

lemma needUpdate_compares_sizes:
  "files w (dbfile d) = Some st \<Longrightarrow>
     needUpdate w d url (Inr hdr) =
       ((int (length (content st)) \<noteq> fst (Atoi (headerGet hdr ''Content-Length'')), None),
        [HeadRequest url])"
  by (simp add: needUpdate_def split: prod.splits)

lemma Atoi_syntax_zero: "snd (Atoi s) = Some ErrSyntax \<Longrightarrow> fst (Atoi s) = 0"
  by (auto simp: Atoi_def Let_def split: list.splits if_splits sum.splits numError.splits)

lemma needUpdate_unparsable_empty:
  "files w (dbfile d) = Some st \<Longrightarrow> content st = [] \<Longrightarrow>
     snd (Atoi (headerGet hdr ''Content-Length'')) = Some ErrSyntax \<Longrightarrow>
     needUpdate w d url (Inr hdr) = ((False, None), [HeadRequest url])"
  using Atoi_syntax_zero [of "headerGet hdr ''Content-Length''"]
  by (simp add: needUpdate_compares_sizes)

text \<open>
  C4. The claim says that a length header that is absent or cannot be parsed always forces
  a download. The code compares the local size with the value that \<open>Atoi\<close> returns beside
  its error, which is 0 for such a header: for a local file of zero bytes the check answers
  that no update is needed.
\<close>

theorem needUpdate_trusts_failed_parse:
  "needUpdate emptyFileWorld schedSample ''http://example.com/db.gz'' (Inr Map.empty)
     = ((False, None), [HeadRequest ''http://example.com/db.gz'']) \<and>
   needUpdate emptyFileWorld schedSample ''http://example.com/db.gz''
       (Inr [''Content-Length'' \<mapsto> ''unknown''])
     = ((False, None), [HeadRequest ''http://example.com/db.gz''])"
  by (simp add: needUpdate_def emptyFileWorld_def schedSample_def newDB_fields headerGet_def
      Atoi_empty Atoi_garbage)

section \<open>Download and install\<close>

lemma decimal_42: "decimal 42 = ''42''"
  by code_simp


text \<open>When the final rename fails, the temporary file is removed.\<close>

lemma failed_rename_removes_tempfile:
  "runUpdate sampleEnv emptyWorld schedSample ''http://example.com/db.gz''
       (goodUpdate\<lparr>renameFault := Some (External ''rename: permission denied'')\<rparr>)
     = (Some (External ''rename: permission denied''),
        \<lparr>files = Map.empty, dirs = {''/tmp/freegeoip'', ''/tmp''}\<rparr>,
        [GetRequest ''http://example.com/db.gz''])"
  by (simp add: runUpdate_def needUpdate_def download_def renameFile_def osRename_def
      osRemoveAll_def makeDir_def pathExists_def emptyWorld_def schedSample_def newDB_fields
      goodUpdate_def sampleEnv_def formatInt_def decimal_42 Let_def insert_commute)

lemma download_copy_failure:
  "getResult inp = Inr body \<Longrightarrow> createFault inp = None \<Longrightarrow> copyFault inp = Some (n, e) \<Longrightarrow>
     \<exists>w'. download ev w url inp = (Inl e, w', [GetRequest url]) \<and>
       files w' (pathJoin ev [tempDir ev, ''_freegeoip.'' @ formatInt (nowNano inp) @ ''.db.gz''])
         = Some \<lparr>content = take n body, modTime = stamp inp\<rparr>"
  by (simp add: download_def Let_def)

text \<open>
  C6. The claim says that no failed attempt leaves a temporary file behind. When the copy
  of the body fails, \<open>download\<close> returns the error and the file it created stays, with the
  bytes written so far: \<open>runUpdate\<close> returns the error without removing it.
\<close>

theorem failed_copy_leaves_tempfile:
  "runUpdate sampleEnv emptyWorld schedSample ''http://example.com/db.gz'' brokenCopy
     = (Some (External ''unexpected EOF''),
        \<lparr>files = [''/tmp/_freegeoip.42.db.gz'' \<mapsto>
                    \<lparr>content = [1, 2, 3], modTime = \<lparr>instant = 42, zone = Some ''Local''\<rparr>\<rparr>],
         dirs = {''/tmp''}\<rparr>,
        [GetRequest ''http://example.com/db.gz''])"
  by (simp add: runUpdate_def needUpdate_def download_def emptyWorld_def schedSample_def
      newDB_fields brokenCopy_def goodUpdate_def sampleEnv_def formatInt_def decimal_42)

section \<open>A snapshot replaced during a load\<close>

text \<open>
  The stat is a second look at the path. When the snapshot is replaced between the read
  and the stat, the instance comes from the old file and the date from the new one.
\<close>

lemma replacedWorld_reached:
  "runUpdate sampleEnv loadedWorld schedSample ''http://example.com/db.gz'' goodUpdate
     = (None, replacedWorld,
        [HeadRequest ''http://example.com/db.gz'', GetRequest ''http://example.com/db.gz''])"
  by (simp add: runUpdate_def needUpdate_def download_def renameFile_def osRename_def
      makeDir_def pathExists_def loadedWorld_def replacedWorld_def schedSample_def newDB_fields
      goodUpdate_def sampleEnv_def formatInt_def decimal_42 Let_def headerGet_def Atoi_5
      fun_upd_twist)

lemma stat_after_replace:
  "openFile sampleEnv loadedWorld replacedWorld schedSample
     = Inr (None,
            schedSample\<lparr>reader := Some 3, lastUpdated := \<lparr>instant = 42, zone = None\<rparr>,
              notifyOpen := \<lparr>buf = [''/tmp/freegeoip/db.gz''], cap = 1, chclosed = False\<rparr>\<rparr>,
            [Emitted OpenStream])"
  by (simp add: openFile_def newReader_def loadedWorld_def replacedWorld_def schedSample_def
      newDB_def make_chan_def sampleEnv_def setReader_def try_send_def UTC_def)

section \<open>The file watcher\<close>

lemma handleMsg_keeps_error_stream:
  "handleMsg ev w w2 t m d = Inr (d', fx, l) \<Longrightarrow>
     notifyError d' = notifyError d \<and> Emitted ErrorStream \<notin> set fx"
  by (cases m)
     (auto simp: handleMsg_def openFile_def setReader_def try_send_def Let_def
        split: if_splits sum.splits option.splits prod.splits)


text \<open>
  C7. The claim says that a failed reload is emitted on the error stream. The loop drops the
  error that \<open>openFile\<close> returns: after two failed reloads (a missing file, a malformed
  stream) and a good one, nothing was emitted on the error stream and the error channel is
  as it was made. The loop does go on after a failure.
\<close>

theorem failed_reload_is_dropped:
  "watchEvents sampleEnv [modifyAt 0 emptyWorld, modifyAt 0 emptyFileWorld, modifyAt 0 loadedWorld] 0 schedSample
     = Inr (loadedSample, [Emitted OpenStream],
            [Reloaded 0 (Some (External ''open: no such file or directory'')),
             Reloaded 1000000000 (Some (External ''gzip: unexpected EOF'')),
             Reloaded 2000000000 None]) \<and>
   notifyError loadedSample = make_chan 1"
  by (simp add: modifyAt_def handleMsg_def matches_def openFile_def newReader_def emptyWorld_def
      emptyFileWorld_def loadedWorld_def schedSample_def newDB_def make_chan_def sampleEnv_def
      loadedSample_def Second_def setReader_def try_send_def UTC_def)


lemma setReader_dbfile: "setReader r t d = Inr (d', fx) \<Longrightarrow> dbfile d' = dbfile d"
  using step_config [of "SetReader r t" d d' fx] by simp

lemma openFile_dbfile: "openFile ev w w2 d = Inr (err, d', fx) \<Longrightarrow> dbfile d' = dbfile d"
  by (auto simp: openFile_def split: sum.splits option.splits prod.splits dest: setReader_dbfile)

lemma handleMsg_log:
  "handleMsg ev w w2 t m d = Inr (d', fx, l) \<Longrightarrow>
     logTime l = t \<and> isReload l = triggers d m \<and> dbfile d' = dbfile d \<and> l \<noteq> Stopped u"
  by (cases m)
     (auto simp: handleMsg_def triggers_def split: if_splits sum.splits prod.splits
        dest: openFile_dbfile)

lemma triggers_dbfile: "dbfile d' = dbfile d \<Longrightarrow> triggers d' m = triggers d m"
  by (cases m) (simp_all add: triggers_def matches_def)

lemma watchEvents_Cons_Inr:
  assumes "watchEvents ev (i # is) now d = Inr (d', fx, lg)"
  obtains d1 fx1 where "run (others i) d = Inr (d1, fx1)"
    "lg = [Stopped (max now (arrival i))] \<or>
     (\<exists>d2 fx2 l fx3 lg'.
        handleMsg ev (snapshot i) (snapshotStat i) (max now (arrival i)) (msg i) d1 = Inr (d2, fx2, l) \<and>
        watchEvents ev is (max now (arrival i) + unat Second) d2 = Inr (d', fx3, lg') \<and>
        lg = l # lg')"
  using assms
  by (auto simp: Let_def split: sum.splits prod.splits if_splits)

lemma watchEvents_times:
  "watchEvents ev is now d = Inr (d', fx, lg) \<Longrightarrow>
     (\<forall>l \<in> set lg. now \<le> logTime l) \<and>
     sorted_wrt (\<lambda>a b. logTime a + unat Second \<le> logTime b) lg"
proof (induction "is" arbitrary: now d fx lg)
  case Nil
  then show ?case by simp
next
  case (Cons i "is")
  let ?t = "max now (arrival i)"
  from Cons.prems obtain d1 fx1 where
    l: "lg = [Stopped ?t] \<or>
     (\<exists>d2 fx2 l fx3 lg'.
        handleMsg ev (snapshot i) (snapshotStat i) ?t (msg i) d1 = Inr (d2, fx2, l) \<and>
        watchEvents ev is (?t + unat Second) d2 = Inr (d', fx3, lg') \<and>
        lg = l # lg')"
    by (rule watchEvents_Cons_Inr)
  from l show ?case
  proof
    assume "lg = [Stopped ?t]"
    then show ?thesis by simp
  next
    assume "\<exists>d2 fx2 l fx3 lg'.
        handleMsg ev (snapshot i) (snapshotStat i) ?t (msg i) d1 = Inr (d2, fx2, l) \<and>
        watchEvents ev is (?t + unat Second) d2 = Inr (d', fx3, lg') \<and>
        lg = l # lg'"
    then obtain d2 fx2 l fx3 lg' where
      h: "handleMsg ev (snapshot i) (snapshotStat i) ?t (msg i) d1 = Inr (d2, fx2, l)"
      and w: "watchEvents ev is (?t + unat Second) d2 = Inr (d', fx3, lg')"
      and e: "lg = l # lg'"
      by blast
    have lt: "logTime l = ?t" using handleMsg_log [OF h] by simp
    from Cons.IH [OF w] have
      a: "\<forall>l' \<in> set lg'. ?t + unat Second \<le> logTime l'"
      and s: "sorted_wrt (\<lambda>a b. logTime a + unat Second \<le> logTime b) lg'"
      by simp_all
    have "\<forall>l' \<in> set lg'. now \<le> logTime l'" using a by auto
    then show ?thesis using a s lt e by simp
  qed
qed

lemma watchEvents_reloads:
  "watchEvents ev is now d = Inr (d', fx, lg) \<Longrightarrow> (\<forall>u. Stopped u \<notin> set lg) \<Longrightarrow>
     length lg = length is \<and>
     length (filter isReload lg) = length (filter (triggers d) (map msg is))"
proof (induction "is" arbitrary: now d fx lg)
  case Nil
  then show ?case by simp
next
  case (Cons i "is")
  let ?t = "max now (arrival i)"
  from Cons.prems(1) obtain d1 fx1 where
    r: "run (others i) d = Inr (d1, fx1)" and
    l: "lg = [Stopped ?t] \<or>
     (\<exists>d2 fx2 l fx3 lg'.
        handleMsg ev (snapshot i) (snapshotStat i) ?t (msg i) d1 = Inr (d2, fx2, l) \<and>
        watchEvents ev is (?t + unat Second) d2 = Inr (d', fx3, lg') \<and>
        lg = l # lg')"
    by (rule watchEvents_Cons_Inr)
  have ns: "lg \<noteq> [Stopped ?t]" using Cons.prems(2) by auto
  with l obtain d2 fx2 l fx3 lg' where
      h: "handleMsg ev (snapshot i) (snapshotStat i) ?t (msg i) d1 = Inr (d2, fx2, l)"
      and w: "watchEvents ev is (?t + unat Second) d2 = Inr (d', fx3, lg')"
      and e: "lg = l # lg'"
    by blast
  have f1: "dbfile d1 = dbfile d" using run_config [OF r] by simp
  have f2: "dbfile d2 = dbfile d" using handleMsg_log [OF h] f1 by simp
  have il: "isReload l = triggers d (msg i)"
    using handleMsg_log [OF h] triggers_dbfile [OF f1] by simp
  have tr: "triggers d2 = triggers d" using triggers_dbfile [OF f2] by (rule ext)
  have ns': "\<forall>u. Stopped u \<notin> set lg'" using Cons.prems(2) e by simp
  from Cons.IH [OF w ns'] have
    "length lg' = length is" and
    "length (filter isReload lg') = length (filter (triggers d) (map msg is))"
    by (simp_all add: tr)
  then show ?case using e il by simp
qed

text \<open>
  C9 (as amended). After each message it handles, the loop sleeps one second before it
  receives the next: the times of its log are at least one second apart. As long as it has
  not stopped, it handles every message that it receives, and it calls \<open>openFile\<close> once for
  every create or modify event for the handle's path: events are not merged.
\<close>

theorem watcher_reloads_per_event:
  "watchEvents ev is now d = Inr (d', fx, lg) \<Longrightarrow>
     sorted_wrt (\<lambda>a b. logTime a + 1000000000 \<le> logTime b) lg \<and>
     ((\<forall>u. Stopped u \<notin> set lg) \<longrightarrow>
        length lg = length is \<and>
        length (filter isReload lg) = length (filter (triggers d) (map msg is)))"
proof -
  assume a: "watchEvents ev is now d = Inr (d', fx, lg)"
  have s: "unat Second = 1000000000" by (simp add: Second_def)
  from watchEvents_times [OF a] watchEvents_reloads [OF a] show ?thesis
    by (simp add: s)
qed

lemma burst_run:
  "watchEvents sampleEnv
      [modifyAt 0 loadedWorld, modifyAt 1000000 loadedWorld, modifyAt 2000000 loadedWorld]
      0 schedSample
     = Inr (loadedSample, [Emitted OpenStream, ReaderClosed 3, ReaderClosed 3],
            [Reloaded 0 None, Reloaded 1000000000 None, Reloaded 2000000000 None])"
  by (simp add: modifyAt_def handleMsg_def matches_def openFile_def newReader_def
      loadedWorld_def schedSample_def newDB_def make_chan_def sampleEnv_def
      loadedSample_def Second_def setReader_def try_send_def UTC_def)

theorem watcher_reloads_per_event_witness:
  "watchEvents sampleEnv
      [modifyAt 0 loadedWorld, modifyAt 1000000 loadedWorld, modifyAt 2000000 loadedWorld]
      0 schedSample
     = Inr (loadedSample, [Emitted OpenStream, ReaderClosed 3, ReaderClosed 3],
            [Reloaded 0 None, Reloaded 1000000000 None, Reloaded 2000000000 None]) \<and>
   length (filter (triggers schedSample)
     (map msg [modifyAt 0 loadedWorld, modifyAt 1000000 loadedWorld, modifyAt 2000000 loadedWorld])) = 3"
proof -
  from watcher_reloads_per_event [OF burst_run] have
    "length (filter isReload [Reloaded 0 None, Reloaded 1000000000 None, Reloaded 2000000000 None])
       = length (filter (triggers schedSample)
           (map msg [modifyAt 0 loadedWorld, modifyAt 1000000 loadedWorld, modifyAt 2000000 loadedWorld]))"
    by simp
  then show ?thesis using burst_run by simp
qed


text \<open>
  Three modify events that are there within two milliseconds give three reloads, one second
  apart.
\<close>

theorem burst_of_three_counterexample:
  "watchEvents sampleEnv
      [modifyAt 0 loadedWorld, modifyAt 1000000 loadedWorld, modifyAt 2000000 loadedWorld]
      0 schedSample
     = Inr (loadedSample, [Emitted OpenStream, ReaderClosed 3, ReaderClosed 3],
            [Reloaded 0 None, Reloaded 1000000000 None, Reloaded 2000000000 None]) \<and>
   length (filter isReload [Reloaded 0 None, Reloaded 1000000000 None, Reloaded 2000000000 None]) = 3"
  by (simp add: modifyAt_def handleMsg_def matches_def openFile_def newReader_def
      loadedWorld_def schedSample_def newDB_def make_chan_def sampleEnv_def
      loadedSample_def Second_def setReader_def try_send_def UTC_def)

end
